theory Spec2Isabelle
  imports Complex_Main "HOL-Library.AList" "HOL-Library.Sublist"
begin

section \<open>Python dictionaries as insertion-ordered association lists\<close>

text \<open>
  A Python \<open>dict\<close> iterates in insertion order, and assigning to a key that is already
  present keeps the key's position. Both are what \<open>AList.update\<close> does on an association
  list, so every dictionary of \<open>genius/ccg_builder.py\<close> is an association list that is only
  ever changed by \<open>AList.update\<close>; \<open>map_of\<close> is the lookup. Strings are \<open>string\<close>; one
  \<open>char\<close> stands for one character of the Python \<open>str\<close>.
\<close>

type_synonym ('k, 'v) dict = "('k \<times> 'v) list"

text \<open>\<open>d.get(k, default)\<close>\<close>

definition dict_get :: "('k, 'v) dict \<Rightarrow> 'k \<Rightarrow> 'v \<Rightarrow> 'v" where
  "dict_get d k dflt = (case map_of d k of None \<Rightarrow> dflt | Some v \<Rightarrow> v)"

text \<open>\<open>k in d\<close>\<close>

definition has_key :: "('k, 'v) dict \<Rightarrow> 'k \<Rightarrow> bool" where
  "has_key d k = (map_of d k \<noteq> None)"

section \<open>The entity graph: class \<open>CodeContextGraph\<close>\<close>

text \<open>
  An entity record is itself a \<open>dict\<close> from field names to strings (\<open>name\<close>, \<open>type\<close>,
  \<open>language\<close>, \<open>file_path\<close>); the code reads it with \<open>.get\<close> and a default.
\<close>

type_synonym entity = "(string, string) dict"

record ccg =
  nodes :: "(string, entity) dict"
  edges :: "(string, string list) dict"
  edge_types :: "(string \<times> string, string) dict"
  file_entities :: "(string, string list) dict"

definition ccg_init :: ccg where
  "ccg_init = \<lparr>nodes = [], edges = [], edge_types = [], file_entities = []\<rparr>"

text \<open>
  \<open>add_node\<close>: \<open>self.nodes[entity_id] = entity_data\<close>, then, when the record's
  \<open>file_path\<close> is a non-empty string, \<open>self.file_entities[file_path].append(entity_id)\<close>
  on a \<open>defaultdict(list)\<close>.
\<close>

definition add_node :: "ccg \<Rightarrow> string \<Rightarrow> entity \<Rightarrow> ccg" where
  "add_node g entity_id entity_data =
     (let g1 = g\<lparr>nodes := AList.update entity_id entity_data (nodes g)\<rparr>;
          file_path = dict_get entity_data ''file_path'' ''''
      in if file_path \<noteq> ''''
         then g1\<lparr>file_entities :=
                  AList.update file_path
                    (dict_get (file_entities g1) file_path [] @ [entity_id])
                    (file_entities g1)\<rparr>
         else g1)"

text \<open>
  \<open>add_edge\<close>: guarded by \<open>from_id in self.nodes and to_id in self.nodes\<close>; then
  \<open>self.edges[from_id].append(to_id)\<close> and \<open>self.edge_types[(from_id, to_id)] = edge_type\<close>.
\<close>

definition add_edge :: "ccg \<Rightarrow> string \<Rightarrow> string \<Rightarrow> string \<Rightarrow> ccg" where
  "add_edge g from_id to_id edge_type =
     (if has_key (nodes g) from_id \<and> has_key (nodes g) to_id
      then g\<lparr>edges := AList.update from_id (dict_get (edges g) from_id [] @ [to_id]) (edges g),
             edge_types := AList.update (from_id, to_id) edge_type (edge_types g)\<rparr>
      else g)"

text \<open>\<open>get_entity\<close>: \<open>self.nodes.get(entity_id, {})\<close>\<close>

definition get_entity :: "ccg \<Rightarrow> string \<Rightarrow> entity" where
  "get_entity g entity_id = dict_get (nodes g) entity_id []"

text \<open>
  \<open>get_stats\<close>. The three counts are integers. \<open>avg_connections\<close> is a Python float,
  the result of the true division \<open>edge_count / max(node_count, 1)\<close>; the record keeps
  the two operands of that division, dividend first, and not the rounded quotient.
\<close>

record stats =
  node_count :: nat
  edge_count :: nat
  file_count :: nat
  avg_connections :: "nat \<times> nat"

definition get_stats :: "ccg \<Rightarrow> stats" where
  "get_stats g =
     \<lparr>node_count = length (nodes g),
      edge_count = sum_list (map (\<lambda>(k, es). length es) (edges g)),
      file_count = length (file_entities g),
      avg_connections =
        (sum_list (map (\<lambda>(k, es). length es) (edges g)), max (length (nodes g)) 1)\<rparr>"

text \<open>
  \<open>to_dict\<close>, the graph snapshot. The type index is flattened by the dictionary
  comprehension \<open>{f"{k[0]}->{k[1]}": v for k, v in self.edge_types.items()}\<close>, which
  assigns the keys in order.
\<close>

record snapshot =
  d_nodes :: "(string, entity) dict"
  d_edges :: "(string, string list) dict"
  d_edge_types :: "(string, string) dict"
  d_stats :: stats

definition to_dict :: "ccg \<Rightarrow> snapshot" where
  "to_dict g =
     \<lparr>d_nodes = nodes g,
      d_edges = edges g,
      d_edge_types = fold (\<lambda>(k, v) d. AList.update (fst k @ ''->'' @ snd k) v d) (edge_types g) [],
      d_stats = get_stats g\<rparr>"

section \<open>Extraction records\<close>

text \<open>
  One record per file, as \<open>parser_engine.py\<close> returns it and \<open>utils.py\<close> completes it
  with \<open>path\<close>. A key that a record does not carry is read by the builder through
  \<open>.get(key, default)\<close>: an absent list is \<open>[]\<close>, an absent \<open>path\<close> or \<open>type\<close> is
  the empty string; \<open>error\<close> and \<open>content\<close> are optional, because the builder tests
  \<open>pfile.get('error')\<close> for truth and \<open>'content' not in pfile\<close>.
\<close>

record pfile =
  pf_path :: string
  pf_type :: string
  pf_error :: "string option"
  pf_content :: "string option"
  pf_funcs :: "string list"
  pf_classes :: "string list"
  pf_structs :: "string list"
  pf_enums :: "string list"
  pf_traits :: "string list"
  pf_walkers :: "string list"
  pf_nodes :: "string list"
  pf_abilities :: "string list"
  pf_globals :: "string list"
  pf_edges :: "string list"
  pf_imports :: "string list"

text \<open>\<open>if pfile.get('error')\<close>: an absent key and the empty string are false.\<close>

definition has_error :: "pfile \<Rightarrow> bool" where
  "has_error pf = (case pf_error pf of None \<Rightarrow> False | Some e \<Rightarrow> e \<noteq> [])"

section \<open>The graph assembler: \<open>build_code_context_graph\<close>\<close>

text \<open>
  The entity id of pass 1: \<open>f"{file_path}::{name}"\<close> in the python, javascript and rust
  branches, \<open>f"{file_path}::node:{name}"\<close>, \<open>f"{file_path}::walker:{name}"\<close> and
  \<open>f"{file_path}::ability:{name}"\<close> in the jac branch, where the prefix is the entity's
  \<open>type\<close> string.
\<close>

definition entity_id_of :: "string \<Rightarrow> string \<Rightarrow> string \<Rightarrow> string \<Rightarrow> string" where
  "entity_id_of language file_path kind name =
     (if language = ''jac'' then file_path @ ''::'' @ kind @ '':'' @ name
      else file_path @ ''::'' @ name)"

definition mk_entity :: "string \<Rightarrow> string \<Rightarrow> string \<Rightarrow> string \<Rightarrow> entity" where
  "mk_entity name kind language file_path =
     [(''name'', name), (''type'', kind), (''language'', language), (''file_path'', file_path)]"

text \<open>One \<open>for name in pfile.get(field, [])\<close> loop of pass 1.\<close>

definition add_entities :: "string \<Rightarrow> string \<Rightarrow> string \<Rightarrow> string list \<Rightarrow> ccg \<Rightarrow> ccg" where
  "add_entities language file_path kind names g =
     fold (\<lambda>name g. add_node g (entity_id_of language file_path kind name)
                         (mk_entity name kind language file_path)) names g"

text \<open>The body of the pass-1 loop: the \<open>if\<close>/\<open>elif\<close> chain on \<open>file_type\<close>.\<close>

definition pass1_file :: "pfile \<Rightarrow> ccg \<Rightarrow> ccg" where
  "pass1_file pf g =
     (if has_error pf then g
      else let file_path = pf_path pf; file_type = pf_type pf in
        if file_type = ''python'' then
          add_entities ''python'' file_path ''class'' (pf_classes pf)
            (add_entities ''python'' file_path ''function'' (pf_funcs pf) g)
        else if file_type = ''jac'' then
          add_entities ''jac'' file_path ''ability'' (pf_abilities pf)
            (add_entities ''jac'' file_path ''walker'' (pf_walkers pf)
              (add_entities ''jac'' file_path ''node'' (pf_nodes pf) g))
        else if file_type = ''javascript'' then
          add_entities ''javascript'' file_path ''class'' (pf_classes pf)
            (add_entities ''javascript'' file_path ''function'' (pf_funcs pf) g)
        else if file_type = ''rust'' then
          add_entities ''rust'' file_path ''struct'' (pf_structs pf)
            (add_entities ''rust'' file_path ''function'' (pf_funcs pf) g)
        else g)"

definition pass1 :: "pfile list \<Rightarrow> ccg \<Rightarrow> ccg" where
  "pass1 parsed_files g = fold pass1_file parsed_files g"

text \<open>Python's \<open>needle in haystack\<close> on strings.\<close>

fun starts_with :: "string \<Rightarrow> string \<Rightarrow> bool" where
  "starts_with [] ys = True"
| "starts_with (x # xs) [] = False"
| "starts_with (x # xs) (y # ys) = (x = y \<and> starts_with xs ys)"

fun str_in :: "string \<Rightarrow> string \<Rightarrow> bool" where
  "str_in xs [] = (xs = [])"
| "str_in xs (y # ys) = (starts_with xs (y # ys) \<or> str_in xs ys)"

text \<open>
  Pass 2, innermost loop first. \<open>scan_others\<close> is
  \<open>for other_entity_id in other_entities\<close>, \<open>scan_files\<close> is
  \<open>for other_file_path, other_entities in ccg.file_entities.items()\<close> with its
  \<open>continue\<close> on the scanning file's own path, \<open>scan_entity\<close> is the body of
  \<open>for entity_id in current_entities\<close>, and \<open>pass2_file\<close> the body of the loop over the
  records. The name that is tested is \<open>entity_name\<close>, the name of the scanning file's
  own entity, against \<open>content\<close>, the scanning file's own text.
\<close>

definition scan_others :: "string \<Rightarrow> string \<Rightarrow> string \<Rightarrow> string list \<Rightarrow> ccg \<Rightarrow> ccg" where
  "scan_others content entity_id entity_name other_entities g =
     fold (\<lambda>other_entity_id g.
             if str_in entity_name content \<and> length entity_name > 3
             then add_edge g other_entity_id entity_id ''calls'' else g)
          other_entities g"

definition scan_files :: "string \<Rightarrow> string \<Rightarrow> string \<Rightarrow> string \<Rightarrow> ccg \<Rightarrow> ccg" where
  "scan_files file_path content entity_id entity_name g =
     fold (\<lambda>(other_file_path, other_entities) g.
             if other_file_path = file_path then g
             else scan_others content entity_id entity_name other_entities g)
          (file_entities g) g"

definition scan_entity :: "string \<Rightarrow> string \<Rightarrow> string \<Rightarrow> ccg \<Rightarrow> ccg" where
  "scan_entity file_path content entity_id g =
     scan_files file_path content entity_id (dict_get (get_entity g entity_id) ''name'' []) g"

definition pass2_file :: "pfile \<Rightarrow> ccg \<Rightarrow> ccg" where
  "pass2_file pf g =
     (if has_error pf then g
      else case pf_content pf of
        None \<Rightarrow> g
      | Some content \<Rightarrow>
          fold (scan_entity (pf_path pf) content)
               (dict_get (file_entities g) (pf_path pf) []) g)"

definition pass2 :: "pfile list \<Rightarrow> ccg \<Rightarrow> ccg" where
  "pass2 parsed_files g = fold pass2_file parsed_files g"

definition build_graph :: "pfile list \<Rightarrow> ccg" where
  "build_graph parsed_files = pass2 parsed_files (pass1 parsed_files ccg_init)"

definition build_code_context_graph :: "pfile list \<Rightarrow> snapshot" where
  "build_code_context_graph parsed_files = to_dict (build_graph parsed_files)"


section \<open>Sets of strings\<close>

text \<open>
  Python iterates a \<open>set\<close> of strings in an order that depends on the strings' hashes,
  which the interpreter seeds anew for every process. The functions that iterate a set
  (\<open>for node_id in top_node_ids\<close>, \<open>list(set(funcs))\<close>) therefore take the iteration
  as a parameter \<open>set_iter\<close>: applied to the elements in the order they were inserted, it
  returns them in the order the set yields them. Whatever the hashes are, a set yields
  each of its elements once:
\<close>

definition iterates_set :: "(string list \<Rightarrow> string list) \<Rightarrow> bool" where
  "iterates_set set_iter = (\<forall>xs. set (set_iter xs) = set xs \<and> distinct (set_iter xs))"

section \<open>The diagram projector: \<open>generate_mermaid_diagram\<close>\<close>

datatype py_error = KeyError string

text \<open>The slice \<open>xs[:m]\<close>; a negative \<open>m\<close> counts from the end.\<close>

definition py_take :: "int \<Rightarrow> 'a list \<Rightarrow> 'a list" where
  "py_take m xs = (if 0 \<le> m then take (nat m) xs else take (nat (int (length xs) + m)) xs)"

text \<open>\<open>s.replace('::', '_')\<close>: non-overlapping occurrences, from the left.\<close>

fun replace_colons :: "string \<Rightarrow> string" where
  "replace_colons (a # b # r) =
     (if a = CHR '':'' \<and> b = CHR '':'' then CHR ''_'' # replace_colons r
      else a # replace_colons (b # r))"
| "replace_colons r = r"

definition replace_char :: "char \<Rightarrow> string \<Rightarrow> string" where
  "replace_char c s = map (\<lambda>x. if x = c then CHR ''_'' else x) s"

text \<open>\<open>node_id.replace('::', '_').replace(':', '_').replace('/', '_').replace('.', '_')\<close>\<close>

definition clean :: "string \<Rightarrow> string" where
  "clean node_id =
     replace_char (CHR ''.'') (replace_char (CHR ''/'') (replace_char (CHR '':'') (replace_colons node_id)))"

definition dquote :: string where
  "dquote = [CHR 0x22]"

definition newline :: string where
  "newline = [CHR 0x0A]"

text \<open>The two characters that \<open>\\n\<close> denotes inside the f-strings: a backslash and \<open>n\<close>.\<close>

definition backslash_n :: string where
  "backslash_n = [CHR 0x5C, CHR ''n'']"

text \<open>
  The text one selected node adds to the diagram: its declaration, shaped by
  \<open>node_type\<close>, and its style line.
\<close>

definition node_decl :: "string \<Rightarrow> entity \<Rightarrow> string" where
  "node_decl node_id node_data =
     (let name = dict_get node_data ''name'' node_id;
          node_type = dict_get node_data ''type'' ''unknown'';
          clean_id = clean node_id
      in if node_type = ''class'' then
           ''    '' @ clean_id @ ''['' @ dquote @ name @ backslash_n @ ''(class)'' @ dquote @ '']'' @ newline
           @ ''    style '' @ clean_id @ '' fill:#e1f5ff,stroke:#01579b'' @ newline
         else if node_type \<in> set [''node'', ''walker''] then
           ''    '' @ clean_id @ ''{'' @ dquote @ name @ backslash_n @ ''('' @ node_type @ '')'' @ dquote @ ''}'' @ newline
           @ ''    style '' @ clean_id @ '' fill:#fff3e0,stroke:#e65100'' @ newline
         else
           ''    '' @ clean_id @ ''('' @ dquote @ name @ backslash_n @ ''('' @ node_type @ '')'' @ dquote @ '')'' @ newline
           @ ''    style '' @ clean_id @ '' fill:#f3e5f5,stroke:#4a148c'' @ newline)"

text \<open>
  \<open>for node_id in top_node_ids\<close>: \<open>nodes[node_id]\<close> raises \<open>KeyError\<close> on an id that
  is not a key.
\<close>

fun emit_nodes :: "(string, entity) dict \<Rightarrow> string list \<Rightarrow> string \<Rightarrow> py_error + string" where
  "emit_nodes nodes' [] mermaid = Inr mermaid"
| "emit_nodes nodes' (node_id # rest) mermaid =
     (case map_of nodes' node_id of
        None \<Rightarrow> Inl (KeyError node_id)
      | Some node_data \<Rightarrow> emit_nodes nodes' rest (mermaid @ node_decl node_id node_data))"

text \<open>
  The body of \<open>for to_id in to_ids\<close>; the state is the diagram text and
  \<open>added_edges\<close>, of which only membership is ever asked.
\<close>

definition emit_edge ::
  "string list \<Rightarrow> string \<Rightarrow> string \<Rightarrow> string \<times> (string \<times> string) list
     \<Rightarrow> string \<times> (string \<times> string) list" where
  "emit_edge top_node_ids from_id to_id st =
     (case st of (mermaid, added_edges) \<Rightarrow>
        if to_id \<in> set top_node_ids \<and> (from_id, to_id) \<notin> set added_edges
        then (mermaid @ ''    '' @ clean from_id @ '' --> '' @ clean to_id @ newline,
              added_edges @ [(from_id, to_id)])
        else (mermaid, added_edges))"

definition emit_edges ::
  "(string, string list) dict \<Rightarrow> string list \<Rightarrow> string \<Rightarrow> string" where
  "emit_edges edges' top_node_ids mermaid =
     fst (fold (\<lambda>from_id st. fold (emit_edge top_node_ids from_id) (dict_get edges' from_id []) st)
               top_node_ids (mermaid, []))"

text \<open>
  The selection: out-degrees in the order of \<open>nodes\<close>, sorted by
  \<open>sorted(..., key=lambda x: x[1], reverse=True)\<close>, which is stable (equal counts keep
  their order), then sliced to \<open>max_nodes\<close>.
\<close>

definition top_nodes :: "snapshot \<Rightarrow> int \<Rightarrow> (string \<times> nat) list" where
  "top_nodes ccg_dict max_nodes =
     (let node_connections =
            map (\<lambda>(node_id, d). (node_id, length (dict_get (d_edges ccg_dict) node_id [])))
                (d_nodes ccg_dict)
      in py_take max_nodes (sort_key (\<lambda>x. - int (snd x)) node_connections))"

definition generate_mermaid_diagram ::
  "(string list \<Rightarrow> string list) \<Rightarrow> snapshot \<Rightarrow> int \<Rightarrow> py_error + string" where
  "generate_mermaid_diagram set_iter ccg_dict max_nodes =
     (let top_node_ids = set_iter (map fst (top_nodes ccg_dict max_nodes))
      in case emit_nodes (d_nodes ccg_dict) top_node_ids (''graph TD'' @ newline) of
           Inl e \<Rightarrow> Inl e
         | Inr mermaid \<Rightarrow> Inr (emit_edges (d_edges ccg_dict) top_node_ids mermaid))"

section \<open>The graph query: \<open>query_ccg\<close>\<close>

text \<open>
  One response block per matching entity: the record itself for \<open>info\<close>,
  \<open>{'entity': ..., 'calls': ...}\<close> for \<open>callees\<close>, \<open>{'entity': ..., 'called_by': ...}\<close>
  for \<open>callers\<close>. The listed records are results of \<open>nodes.get(id)\<close>, which is \<open>None\<close>
  for an id that is not a node.
\<close>

datatype block =
    Info entity
  | Calls entity "entity option list"
  | Called_By entity "entity option list"

definition matching_entities :: "(string, entity) dict \<Rightarrow> string \<Rightarrow> (string \<times> entity) list" where
  "matching_entities nodes' entity_name =
     filter (\<lambda>(eid, data). map_of data ''name'' = Some entity_name) nodes'"

text \<open>The body of \<open>for entity_id, entity_data in matching_entities\<close>.\<close>

definition query_block ::
  "(string, entity) dict \<Rightarrow> (string, string list) dict \<Rightarrow> string \<Rightarrow> string \<times> entity
     \<Rightarrow> block list \<Rightarrow> block list" where
  "query_block nodes' edges' query_type m results =
     (case m of (entity_id, entity_data) \<Rightarrow>
        if query_type = ''info'' then results @ [Info entity_data]
        else if query_type = ''callees'' then
          results @ [Calls entity_data
                       (map (map_of nodes') (filter (has_key nodes') (dict_get edges' entity_id [])))]
        else if query_type = ''callers'' then
          results @ [Called_By entity_data
                       (map (\<lambda>(from_id, to_ids). map_of nodes' from_id)
                            (filter (\<lambda>(from_id, to_ids). entity_id \<in> set to_ids) edges'))]
        else results)"

definition not_found :: "string \<Rightarrow> string" where
  "not_found entity_name = ''Entity '' @ dquote @ entity_name @ dquote @ '' not found''"

definition query_ccg :: "snapshot \<Rightarrow> string \<Rightarrow> string \<Rightarrow> string + block list" where
  "query_ccg ccg_dict query_type entity_name =
     (let nodes' = d_nodes ccg_dict; edges' = d_edges ccg_dict;
          matching = matching_entities nodes' entity_name
      in if matching = [] then Inl (not_found entity_name)
         else Inr (fold (query_block nodes' edges' query_type) matching []))"

section \<open>The source extractor: \<open>parser_engine.py\<close>\<close>

text \<open>
  The regular-expression engine and the \<open>ast\<close> module are Python's, not the
  repository's: each \<open>parse_\<close> function takes what they return (the match lists of its
  \<open>re.findall\<close> calls, the nodes that \<open>ast.walk\<close> yields or the \<open>SyntaxError\<close>) next to
  the file's text, and does with them what the source does. \<open>path\<close> is not set here.
\<close>

definition no_record :: pfile where
  "no_record =
     \<lparr>pf_path = [], pf_type = [], pf_error = None, pf_content = None,
      pf_funcs = [], pf_classes = [], pf_structs = [], pf_enums = [], pf_traits = [],
      pf_walkers = [], pf_nodes = [], pf_abilities = [], pf_globals = [], pf_edges = [],
      pf_imports = []\<rparr>"

datatype ast_node =
    FunctionDef string
  | ClassDef string
  | Import "string list"
  | ImportFrom "string option"
  | Other_Node

text \<open>The loop that collects \<open>imports\<close>; \<open>if node.module\<close> skips \<open>None\<close> and \<open>''\<close>.\<close>

fun collect_imports :: "ast_node list \<Rightarrow> string list \<Rightarrow> string list" where
  "collect_imports [] imports = imports"
| "collect_imports (Import names # rest) imports = collect_imports rest (imports @ names)"
| "collect_imports (ImportFrom m # rest) imports =
     (case m of
        None \<Rightarrow> collect_imports rest imports
      | Some module_name \<Rightarrow>
          if module_name \<noteq> [] then collect_imports rest (imports @ [module_name])
          else collect_imports rest imports)"
| "collect_imports (n # rest) imports = collect_imports rest imports"

definition parse_python :: "string + ast_node list \<Rightarrow> string \<Rightarrow> pfile" where
  "parse_python parsed code =
     (case parsed of
        Inr walk \<Rightarrow>
          no_record\<lparr>pf_type := ''python'',
            pf_funcs := concat (map (\<lambda>n. case n of FunctionDef name \<Rightarrow> [name] | _ \<Rightarrow> []) walk),
            pf_classes := concat (map (\<lambda>n. case n of ClassDef name \<Rightarrow> [name] | _ \<Rightarrow> []) walk),
            pf_imports := collect_imports walk [],
            pf_content := Some code\<rparr>
      | Inl e \<Rightarrow>
          no_record\<lparr>pf_type := ''python'',
            pf_error := Some (''Parse error: '' @ e),
            pf_content := Some code\<rparr>)"

definition parse_javascript ::
  "(string list \<Rightarrow> string list) \<Rightarrow> string list \<Rightarrow> string list \<Rightarrow> string list
     \<Rightarrow> string list \<Rightarrow> string list \<Rightarrow> string \<Rightarrow> pfile" where
  "parse_javascript set_iter funcs arrow_funcs classes imports requires code =
     no_record\<lparr>pf_type := ''javascript'',
       pf_funcs := set_iter (funcs @ arrow_funcs),
       pf_classes := set_iter classes,
       pf_imports := set_iter (imports @ requires),
       pf_content := Some code\<rparr>"

definition parse_rust ::
  "(string list \<Rightarrow> string list) \<Rightarrow> string list \<Rightarrow> string list \<Rightarrow> string list
     \<Rightarrow> string list \<Rightarrow> string list \<Rightarrow> string \<Rightarrow> pfile" where
  "parse_rust set_iter funcs structs enums traits imports code =
     no_record\<lparr>pf_type := ''rust'',
       pf_funcs := set_iter funcs,
       pf_structs := set_iter structs,
       pf_enums := set_iter enums,
       pf_traits := set_iter traits,
       pf_imports := imports,
       pf_content := Some code\<rparr>"

definition parse_jac ::
  "(string list \<Rightarrow> string list) \<Rightarrow> string list \<Rightarrow> string list \<Rightarrow> string list
     \<Rightarrow> string list \<Rightarrow> string list \<Rightarrow> string list \<Rightarrow> string list \<Rightarrow> string list
     \<Rightarrow> string list \<Rightarrow> string \<Rightarrow> pfile" where
  "parse_jac set_iter walkers nodes' enums abilities globals_vars
       imports_py imports_jac imports_brace edges' content =
     no_record\<lparr>pf_type := ''jac'',
       pf_walkers := set_iter walkers,
       pf_nodes := set_iter nodes',
       pf_enums := set_iter enums,
       pf_abilities := set_iter abilities,
       pf_globals := set_iter globals_vars,
       pf_edges := set_iter edges',
       pf_imports := imports_py @ imports_jac @ imports_brace,
       pf_content := Some content\<rparr>"

definition parse_generic :: "string \<Rightarrow> pfile" where
  "parse_generic content = no_record\<lparr>pf_type := ''unknown'', pf_content := Some (take 500 content)\<rparr>"

section \<open>Notions used to state the properties\<close>

text \<open>\<open>get_callees\<close>: \<open>self.edges.get(entity_id, [])\<close>\<close>

definition get_callees :: "ccg \<Rightarrow> string \<Rightarrow> string list" where
  "get_callees g entity_id = dict_get (edges g) entity_id []"

definition has_edge :: "ccg \<Rightarrow> string \<Rightarrow> string \<Rightarrow> bool" where
  "has_edge g from_id to_id = (to_id \<in> set (get_callees g from_id))"

text \<open>The loop of \<open>scan_files\<close> over a given list of file-index items.\<close>

definition scan_list ::
  "string \<Rightarrow> string \<Rightarrow> string \<Rightarrow> string \<Rightarrow> (string, string list) dict \<Rightarrow> ccg \<Rightarrow> ccg" where
  "scan_list fp c eid en fe g =
     fold (\<lambda>(other_file_path, other_entities) g.
             if other_file_path = fp then g
             else scan_others c eid en other_entities g) fe g"

text \<open>
  What makes pass 2 link \<open>a\<close> to \<open>b\<close> while it scans the file \<open>fp\<close> with text \<open>c\<close>,
  in terms of the nodes and the file index.
\<close>

definition link_cond ::
  "(string, entity) dict \<Rightarrow> (string, string list) dict \<Rightarrow> string \<Rightarrow> string
     \<Rightarrow> string \<Rightarrow> string \<Rightarrow> bool" where
  "link_cond nd fe fp c a b =
     ((\<exists>(p, os) \<in> set fe. p \<noteq> fp \<and> a \<in> set os)
      \<and> str_in (dict_get (dict_get nd b []) ''name'' []) c
      \<and> length (dict_get (dict_get nd b []) ''name'' []) > 3
      \<and> has_key nd a \<and> has_key nd b)"

definition file_links :: "ccg \<Rightarrow> pfile \<Rightarrow> string \<Rightarrow> string \<Rightarrow> bool" where
  "file_links g pf a b =
     (\<not> has_error pf \<and>
      (\<exists>c. pf_content pf = Some c
          \<and> b \<in> set (dict_get (file_entities g) (pf_path pf) [])
          \<and> link_cond (nodes g) (file_entities g) (pf_path pf) c a b))"

text \<open>
  The file index is a dictionary (no key twice) and lists only ids of nodes; every
  recorded edge is labelled \<open>calls\<close>.
\<close>

definition indexed_ok :: "ccg \<Rightarrow> bool" where
  "indexed_ok g =
     (distinct (map fst (file_entities g))
      \<and> (\<forall>(p, os) \<in> set (file_entities g). \<forall>i \<in> set os. has_key (nodes g) i))"

definition calls_only :: "ccg \<Rightarrow> bool" where
  "calls_only g = (\<forall>a b. has_edge g a b \<longrightarrow> map_of (edge_types g) (a, b) = Some ''calls'')"

text \<open>A python record with the given path, function names and optional text.\<close>

definition py_file :: "string \<Rightarrow> string list \<Rightarrow> string option \<Rightarrow> pfile" where
  "py_file path funcs content =
     no_record\<lparr>pf_path := path, pf_type := ''python'', pf_funcs := funcs, pf_content := content\<rparr>"

text \<open>Two records used to exercise pass 2: only the first carries text.\<close>

definition two_files :: "pfile list" where
  "two_files = [py_file ''a.py'' [''start''] (Some ''def start(): pass''),
                py_file ''b.py'' [''load''] None]"

text \<open>
  The \<open>add_node\<close> calls that pass 1 makes for one record, in the order it makes them:
  the id and the entity record of each call.
\<close>

definition items :: "string \<Rightarrow> string \<Rightarrow> string \<Rightarrow> string list \<Rightarrow> (string \<times> entity) list" where
  "items language file_path kind names =
     map (\<lambda>name. (entity_id_of language file_path kind name, mk_entity name kind language file_path)) names"

definition declared :: "pfile \<Rightarrow> (string \<times> entity) list" where
  "declared pf =
     (if has_error pf then []
      else if pf_type pf = ''python'' then
        items ''python'' (pf_path pf) ''function'' (pf_funcs pf)
        @ items ''python'' (pf_path pf) ''class'' (pf_classes pf)
      else if pf_type pf = ''jac'' then
        items ''jac'' (pf_path pf) ''node'' (pf_nodes pf)
        @ items ''jac'' (pf_path pf) ''walker'' (pf_walkers pf)
        @ items ''jac'' (pf_path pf) ''ability'' (pf_abilities pf)
      else if pf_type pf = ''javascript'' then
        items ''javascript'' (pf_path pf) ''function'' (pf_funcs pf)
        @ items ''javascript'' (pf_path pf) ''class'' (pf_classes pf)
      else if pf_type pf = ''rust'' then
        items ''rust'' (pf_path pf) ''function'' (pf_funcs pf)
        @ items ''rust'' (pf_path pf) ''struct'' (pf_structs pf)
      else [])"

definition add_all :: "(string \<times> entity) list \<Rightarrow> ccg \<Rightarrow> ccg" where
  "add_all its g = fold (\<lambda>(i, d) g. add_node g i d) its g"



section \<open>Properties of the entity graph\<close>

lemma dict_get_update_same: "dict_get (AList.update k v d) k dflt = v"
  by (simp add: dict_get_def update_conv')

lemma dict_get_update_other: "k' \<noteq> k \<Longrightarrow> dict_get (AList.update k v d) k' dflt = dict_get d k' dflt"
  by (simp add: dict_get_def update_conv')

lemma has_key_update: "has_key (AList.update k v d) k' = (k' = k \<or> has_key d k')"
  by (simp add: has_key_def update_conv')

lemma has_key_keys: "has_key d k = (k \<in> fst ` set d)"
  by (simp add: has_key_def map_of_eq_None_iff)

text \<open>
  Claim C6. \<open>add_edge\<close> returns the graph unchanged (all four components: nodes,
  adjacency lists, edge-type index, file index) whenever \<open>from_id\<close> or \<open>to_id\<close> is not a
  node; when both are nodes it appends \<open>to_id\<close> to the adjacency list of \<open>from_id\<close>, sets
  the \<open>(from_id, to_id)\<close> entry of the type index to the given type, and leaves the
  nodes and the file index as they were.
\<close>

theorem add_edge_guard:
  "(\<not> has_key (nodes g) from_id \<or> \<not> has_key (nodes g) to_id
      \<longrightarrow> add_edge g from_id to_id ty = g)
   \<and> (has_key (nodes g) from_id \<and> has_key (nodes g) to_id
      \<longrightarrow> dict_get (edges (add_edge g from_id to_id ty)) from_id []
            = dict_get (edges g) from_id [] @ [to_id]
        \<and> map_of (edge_types (add_edge g from_id to_id ty)) (from_id, to_id) = Some ty
        \<and> nodes (add_edge g from_id to_id ty) = nodes g
        \<and> file_entities (add_edge g from_id to_id ty) = file_entities g
        \<and> (\<forall>k. k \<noteq> from_id \<longrightarrow>
              map_of (edges (add_edge g from_id to_id ty)) k = map_of (edges g) k)
        \<and> (\<forall>p. p \<noteq> (from_id, to_id) \<longrightarrow>
              map_of (edge_types (add_edge g from_id to_id ty)) p = map_of (edge_types g) p))"
  by (simp add: add_edge_def dict_get_update_same update_conv')

theorem add_edge_guard_witness:
  "add_edge (add_node ccg_init ''a.py::f'' [(''name'', ''f'')]) ''a.py::f'' ''b.py::g'' ''calls''
     = add_node ccg_init ''a.py::f'' [(''name'', ''f'')]
   \<and> edges (add_edge (add_node ccg_init ''a.py::f'' [(''name'', ''f'')])
               ''a.py::f'' ''a.py::f'' ''calls'') = [(''a.py::f'', [''a.py::f''])]"
  using add_edge_guard [of "add_node ccg_init ''a.py::f'' [(''name'', ''f'')]"
                           "''a.py::f''" "''b.py::g''" "''calls''"]
        add_edge_guard [of "add_node ccg_init ''a.py::f'' [(''name'', ''f'')]"
                           "''a.py::f''" "''a.py::f''" "''calls''"]
  by (simp add: add_edge_def add_node_def Let_def ccg_init_def has_key_def dict_get_def)

text \<open>
  Claim C10. Calling \<open>add_node\<close> with an id that is already a node and a record whose
  \<open>file_path\<close> is non-empty replaces the stored record by the new one (the key keeps its
  place, no other node changes) and appends the id once more to the file-index bucket
  of that path, so the bucket can hold the same id more than once.
\<close>

theorem add_node_again:
  "has_key (nodes g) entity_id \<and> dict_get entity_data ''file_path'' '''' \<noteq> ''''
   \<longrightarrow> map_of (nodes (add_node g entity_id entity_data)) entity_id = Some entity_data
       \<and> map fst (nodes (add_node g entity_id entity_data)) = map fst (nodes g)
       \<and> (\<forall>k. k \<noteq> entity_id \<longrightarrow>
             map_of (nodes (add_node g entity_id entity_data)) k = map_of (nodes g) k)
       \<and> dict_get (file_entities (add_node g entity_id entity_data))
            (dict_get entity_data ''file_path'' '''') []
          = dict_get (file_entities g) (dict_get entity_data ''file_path'' '''') [] @ [entity_id]"
  by (simp add: add_node_def Let_def dict_get_update_same update_conv' has_key_keys update_keys)

theorem add_node_again_witness:
  "file_entities (add_node (add_node ccg_init ''a.py::f'' [(''name'', ''f''), (''file_path'', ''a.py'')])
                    ''a.py::f'' [(''name'', ''f''), (''type'', ''class''), (''file_path'', ''a.py'')])
     = [(''a.py'', [''a.py::f'', ''a.py::f''])]
   \<and> nodes (add_node (add_node ccg_init ''a.py::f'' [(''name'', ''f''), (''file_path'', ''a.py'')])
                    ''a.py::f'' [(''name'', ''f''), (''type'', ''class''), (''file_path'', ''a.py'')])
     = [(''a.py::f'', [(''name'', ''f''), (''type'', ''class''), (''file_path'', ''a.py'')])]"
  using add_node_again [of "add_node ccg_init ''a.py::f'' [(''name'', ''f''), (''file_path'', ''a.py'')]"
                           "''a.py::f''"
                           "[(''name'', ''f''), (''type'', ''class''), (''file_path'', ''a.py'')]"]
  by (simp add: add_node_def Let_def ccg_init_def has_key_def dict_get_def)

section \<open>Properties of pass 2\<close>

lemma str_in_sublist: "str_in xs ys = sublist xs ys"
proof (induction ys)
  case Nil show ?case by simp
next
  case (Cons y ys)
  have p: "starts_with xs zs = prefix xs zs" for zs
    by (induction xs zs rule: starts_with.induct) simp_all
  show ?case using Cons by (simp add: p sublist_Cons_right)
qed

lemma add_edge_nodes: "nodes (add_edge g f t ty) = nodes g"
  by (simp add: add_edge_def)

lemma add_edge_file_entities: "file_entities (add_edge g f t ty) = file_entities g"
  by (simp add: add_edge_def)

lemma has_edge_add_edge:
  "has_edge (add_edge g f t ty) a b =
     (has_edge g a b \<or> (a = f \<and> b = t \<and> has_key (nodes g) f \<and> has_key (nodes g) t))"
  by (cases "a = f") (auto simp: has_edge_def get_callees_def add_edge_def dict_get_update_same dict_get_update_other)

lemma scan_others_nodes: "nodes (scan_others c eid en os g) = nodes g"
  unfolding scan_others_def by (induction os arbitrary: g) (simp_all add: add_edge_nodes)

lemma scan_others_file_entities: "file_entities (scan_others c eid en os g) = file_entities g"
  unfolding scan_others_def by (induction os arbitrary: g) (simp_all add: add_edge_file_entities)

lemma has_edge_scan_others:
  "has_edge (scan_others c eid en os g) a b =
     (has_edge g a b \<or>
      (b = eid \<and> a \<in> set os \<and> str_in en c \<and> length en > 3
        \<and> has_key (nodes g) a \<and> has_key (nodes g) eid))"
  unfolding scan_others_def
proof (induction os arbitrary: g)
  case Nil show ?case by simp
next
  case (Cons x xs)
  show ?case by (auto simp: Cons has_edge_add_edge add_edge_nodes)
qed


lemma scan_list_nodes: "nodes (scan_list fp c eid en fe g) = nodes g"
  unfolding scan_list_def by (induction fe arbitrary: g) (auto simp: scan_others_nodes)

lemma scan_list_file_entities: "file_entities (scan_list fp c eid en fe g) = file_entities g"
  unfolding scan_list_def by (induction fe arbitrary: g) (auto simp: scan_others_file_entities)

lemma has_edge_scan_list:
  "has_edge (scan_list fp c eid en fe g) a b =
     (has_edge g a b \<or>
      (b = eid \<and> (\<exists>(p, os) \<in> set fe. p \<noteq> fp \<and> a \<in> set os) \<and> str_in en c \<and> length en > 3
        \<and> has_key (nodes g) a \<and> has_key (nodes g) eid))"
proof (induction fe arbitrary: g)
  case Nil show ?case by (simp add: scan_list_def)
next
  case (Cons x xs)
  obtain p os where x: "x = (p, os)" by (cases x)
  have step: "scan_list fp c eid en (x # xs) g =
      scan_list fp c eid en xs (if p = fp then g else scan_others c eid en os g)"
    by (simp add: scan_list_def x)
  show ?case unfolding step Cons
    by (auto simp: x has_edge_scan_others scan_others_nodes)
qed



lemma scan_files_list: "scan_files fp c eid en g = scan_list fp c eid en (file_entities g) g"
  by (simp add: scan_files_def scan_list_def)

lemma scan_entity_nodes: "nodes (scan_entity fp c eid g) = nodes g"
  by (simp add: scan_entity_def scan_files_list scan_list_nodes)

lemma scan_entity_file_entities: "file_entities (scan_entity fp c eid g) = file_entities g"
  by (simp add: scan_entity_def scan_files_list scan_list_file_entities)

lemma has_edge_scan_entity:
  "has_edge (scan_entity fp c eid g) a b =
     (has_edge g a b \<or> (b = eid \<and> link_cond (nodes g) (file_entities g) fp c a b))"
  by (auto simp: scan_entity_def scan_files_list has_edge_scan_list link_cond_def get_entity_def)

lemma fold_scan_entity_nodes: "nodes (fold (scan_entity fp c) cur g) = nodes g"
  by (induction cur arbitrary: g) (simp_all add: scan_entity_nodes)

lemma fold_scan_entity_file_entities:
  "file_entities (fold (scan_entity fp c) cur g) = file_entities g"
  by (induction cur arbitrary: g) (simp_all add: scan_entity_file_entities)

lemma has_edge_fold_scan_entity:
  "has_edge (fold (scan_entity fp c) cur g) a b =
     (has_edge g a b \<or> (b \<in> set cur \<and> link_cond (nodes g) (file_entities g) fp c a b))"
proof (induction cur arbitrary: g)
  case Nil show ?case by simp
next
  case (Cons x xs)
  show ?case
    by (auto simp: Cons has_edge_scan_entity scan_entity_nodes scan_entity_file_entities)
qed


lemma pass2_file_nodes: "nodes (pass2_file pf g) = nodes g"
  by (simp add: pass2_file_def fold_scan_entity_nodes split: option.splits)

lemma pass2_file_file_entities: "file_entities (pass2_file pf g) = file_entities g"
  by (simp add: pass2_file_def fold_scan_entity_file_entities split: option.splits)

lemma has_edge_pass2_file:
  "has_edge (pass2_file pf g) a b = (has_edge g a b \<or> file_links g pf a b)"
  by (auto simp: pass2_file_def file_links_def has_edge_fold_scan_entity split: option.splits)

lemma file_links_cong:
  "nodes g' = nodes g \<Longrightarrow> file_entities g' = file_entities g
     \<Longrightarrow> file_links g' pf a b = file_links g pf a b"
  by (simp add: file_links_def)

lemma pass2_nodes: "nodes (pass2 pfs g) = nodes g"
  unfolding pass2_def by (induction pfs arbitrary: g) (simp_all add: pass2_file_nodes)

lemma pass2_file_entities: "file_entities (pass2 pfs g) = file_entities g"
  unfolding pass2_def by (induction pfs arbitrary: g) (simp_all add: pass2_file_file_entities)

lemma has_edge_pass2:
  "has_edge (pass2 pfs g) a b = (has_edge g a b \<or> (\<exists>pf \<in> set pfs. file_links g pf a b))"
  unfolding pass2_def
proof (induction pfs arbitrary: g)
  case Nil show ?case by simp
next
  case (Cons x xs)
  have "file_links (pass2_file x g) pf a b = file_links g pf a b" for pf
    by (rule file_links_cong) (simp_all add: pass2_file_nodes pass2_file_file_entities)
  then show ?case by (auto simp: Cons has_edge_pass2_file)
qed



lemma set_update_subset:
  "(p, os) \<in> set (AList.update k v d) \<Longrightarrow> (p, os) = (k, v) \<or> (p, os) \<in> set d"
  by (induction d) (auto split: if_splits)

lemma indexed_ok_add_node: "indexed_ok g \<Longrightarrow> indexed_ok (add_node g i d)"
  unfolding indexed_ok_def add_node_def Let_def
  apply (auto simp: distinct_update has_key_update dict_get_def dest!: set_update_subset split: option.splits)
  apply (auto dest: map_of_SomeD)
  done

lemma indexed_ok_add_entities: "indexed_ok g \<Longrightarrow> indexed_ok (add_entities l fp k ns g)"
  unfolding add_entities_def by (induction ns arbitrary: g) (simp_all add: indexed_ok_add_node)

lemma indexed_ok_pass1_file: "indexed_ok g \<Longrightarrow> indexed_ok (pass1_file pf g)"
  by (simp add: pass1_file_def Let_def indexed_ok_add_entities)

lemma indexed_ok_pass1: "indexed_ok g \<Longrightarrow> indexed_ok (pass1 pfs g)"
  unfolding pass1_def by (induction pfs arbitrary: g) (simp_all add: indexed_ok_pass1_file)

lemma indexed_ok_init: "indexed_ok ccg_init"
  by (simp add: indexed_ok_def ccg_init_def)

lemma bucket_mem:
  "distinct (map fst fe) \<Longrightarrow>
     (\<exists>(p, os) \<in> set fe. p \<noteq> fp \<and> a \<in> set os) = (\<exists>p. p \<noteq> fp \<and> a \<in> set (dict_get fe p []))"
  by (auto simp: dict_get_def split: option.splits)


lemma build_graph_nodes: "nodes (build_graph pfs) = nodes (pass1 pfs ccg_init)"
  by (simp add: build_graph_def pass2_nodes)

lemma build_graph_file_entities: "file_entities (build_graph pfs) = file_entities (pass1 pfs ccg_init)"
  by (simp add: build_graph_def pass2_file_entities)

lemma indexed_ok_build: "indexed_ok (build_graph pfs)"
  using indexed_ok_pass1 [OF indexed_ok_init, of pfs]
  by (simp add: indexed_ok_def build_graph_nodes build_graph_file_entities)

lemma edges_add_node: "edges (add_node g i d) = edges g"
  by (simp add: add_node_def Let_def)

lemma edges_add_entities: "edges (add_entities l fp k ns g) = edges g"
  unfolding add_entities_def by (induction ns arbitrary: g) (simp_all add: edges_add_node)

lemma edges_pass1_file: "edges (pass1_file pf g) = edges g"
  by (simp add: pass1_file_def Let_def edges_add_entities)

lemma edges_pass1: "edges (pass1 pfs g) = edges g"
  unfolding pass1_def by (induction pfs arbitrary: g) (simp_all add: edges_pass1_file)

lemma has_edge_build:
  "has_edge (build_graph pfs) a b =
     (\<exists>pf \<in> set pfs. \<not> has_error pf \<and>
        (\<exists>c. pf_content pf = Some c
           \<and> b \<in> set (dict_get (file_entities (build_graph pfs)) (pf_path pf) [])
           \<and> (\<exists>p. p \<noteq> pf_path pf \<and> a \<in> set (dict_get (file_entities (build_graph pfs)) p []))
           \<and> str_in (dict_get (get_entity (build_graph pfs) b) ''name'' []) c
           \<and> 3 < length (dict_get (get_entity (build_graph pfs) b) ''name'' [])))"
proof -
  let ?g = "pass1 pfs ccg_init"
  let ?G = "build_graph pfs"
  have ok: "indexed_ok ?G" by (rule indexed_ok_build)
  have e0: "\<not> has_edge ?g a b"
    by (simp add: has_edge_def get_callees_def edges_pass1 ccg_init_def dict_get_def)
  have 1: "has_edge ?G a b = (\<exists>pf \<in> set pfs. file_links ?G pf a b)"
    using e0 has_edge_pass2 [of pfs ?g a b]
          file_links_cong [of ?G ?g]
    by (simp add: build_graph_def pass2_nodes pass2_file_entities)
  have keys: "has_key (nodes ?G) i" if "i \<in> set (dict_get (file_entities ?G) p [])" for i p
  proof -
    from that obtain os where "map_of (file_entities ?G) p = Some os" "i \<in> set os"
      by (cases "map_of (file_entities ?G) p") (auto simp: dict_get_def)
    then have "(p, os) \<in> set (file_entities ?G)" by (auto dest: map_of_SomeD)
    with ok \<open>i \<in> set os\<close> show ?thesis by (auto simp: indexed_ok_def)
  qed
  have 2: "file_links ?G pf a b =
      (\<not> has_error pf \<and>
        (\<exists>c. pf_content pf = Some c
           \<and> b \<in> set (dict_get (file_entities ?G) (pf_path pf) [])
           \<and> (\<exists>p. p \<noteq> pf_path pf \<and> a \<in> set (dict_get (file_entities ?G) p []))
           \<and> str_in (dict_get (get_entity ?G b) ''name'' []) c
           \<and> 3 < length (dict_get (get_entity ?G b) ''name'' [])))" for pf
    using ok keys
    by (auto simp: file_links_def link_cond_def get_entity_def indexed_ok_def bucket_mem)
  show ?thesis unfolding 1 2 ..
qed

lemma calls_only_add_edge: "calls_only g \<Longrightarrow> calls_only (add_edge g f t ''calls'')"
  unfolding calls_only_def
  by (auto simp: has_edge_add_edge) (auto simp: add_edge_def update_conv')

lemma calls_only_scan_others: "calls_only g \<Longrightarrow> calls_only (scan_others c eid en os g)"
  unfolding scan_others_def by (induction os arbitrary: g) (simp_all add: calls_only_add_edge)

lemma calls_only_scan_list: "calls_only g \<Longrightarrow> calls_only (scan_list fp c eid en fe g)"
  unfolding scan_list_def
  by (induction fe arbitrary: g) (auto simp: calls_only_scan_others)

lemma calls_only_scan_entity: "calls_only g \<Longrightarrow> calls_only (scan_entity fp c eid g)"
  by (simp add: scan_entity_def scan_files_list calls_only_scan_list)

lemma calls_only_fold_scan_entity: "calls_only g \<Longrightarrow> calls_only (fold (scan_entity fp c) cur g)"
  by (induction cur arbitrary: g) (simp_all add: calls_only_scan_entity)

lemma calls_only_pass2_file: "calls_only g \<Longrightarrow> calls_only (pass2_file pf g)"
  by (simp add: pass2_file_def calls_only_fold_scan_entity split: option.splits)

lemma calls_only_pass2: "calls_only g \<Longrightarrow> calls_only (pass2 pfs g)"
  unfolding pass2_def by (induction pfs arbitrary: g) (simp_all add: calls_only_pass2_file)

lemma calls_only_build: "calls_only (build_graph pfs)"
  unfolding build_graph_def
  by (rule calls_only_pass2)
     (simp add: calls_only_def has_edge_def get_callees_def edges_pass1 ccg_init_def dict_get_def)

text \<open>
  The edges that pass 2 records, exactly. After \<open>build_code_context_graph\<close>, \<open>to_id\<close> is
  in the adjacency list of \<open>from_id\<close> exactly when some record that is not an error and
  has text content (the scanning file) has \<open>to_id\<close> in the file-index bucket of its
  path, \<open>from_id\<close> is in the bucket of a different path, and the name stored for
  \<open>to_id\<close>, the scanning file's own entity, is longer than 3 characters and occurs in
  the scanning file's own text. The name of the other file's entity is never looked at.
  Every recorded edge is labelled \<open>calls\<close>.
\<close>

lemma pass2_edges_exact:
  "(to_id \<in> set (get_callees (build_graph pfs) from_id)) =
     (\<exists>pf \<in> set pfs. \<not> has_error pf \<and>
        (\<exists>content. pf_content pf = Some content
           \<and> to_id \<in> set (dict_get (file_entities (build_graph pfs)) (pf_path pf) [])
           \<and> (\<exists>other_file_path. other_file_path \<noteq> pf_path pf
                 \<and> from_id \<in> set (dict_get (file_entities (build_graph pfs)) other_file_path []))
           \<and> str_in (dict_get (get_entity (build_graph pfs) to_id) ''name'' []) content
           \<and> 3 < length (dict_get (get_entity (build_graph pfs) to_id) ''name'' [])))
   \<and> (to_id \<in> set (get_callees (build_graph pfs) from_id)
        \<longrightarrow> map_of (edge_types (build_graph pfs)) (from_id, to_id) = Some ''calls'')"
  using has_edge_build [of pfs from_id to_id] calls_only_build [of pfs]
  by (simp add: has_edge_def calls_only_def)

text \<open>
  Claim C1 says that the name tested against the scanning file's text is the name of the
  candidate entity of the other file. The code tests \<open>entity_name\<close>, the name of the
  scanning file's own entity, and so departs from the claim in both directions.
  First input: \<open>main.py\<close> declares \<open>run\<close> and its text mentions \<open>init_app\<close>, which
  \<open>models.py\<close> declares; the claim's condition holds, and no edge is recorded, because
  the tested name \<open>run\<close> has 3 characters. Second input: \<open>main.py\<close> declares
  \<open>run_server\<close> and its text does not mention \<open>init_app\<close>; the claim's condition
  fails, and the edge from \<open>models.py::init_app\<close> to \<open>main.py::run_server\<close> is recorded
  all the same, because \<open>run_server\<close> occurs in the text of its own file.
\<close>

theorem pass2_tests_own_name:
  "str_in ''init_app'' (''def run():'' @ newline @ ''    init_app()'')
   \<and> 3 < length ''init_app''
   \<and> file_entities (build_graph [py_file ''main.py'' [''run''] (Some (''def run():'' @ newline @ ''    init_app()'')),
                     py_file ''models.py'' [''init_app''] None])
       = [(''main.py'', [''main.py::run'']), (''models.py'', [''models.py::init_app''])]
   \<and> edges (build_graph [py_file ''main.py'' [''run''] (Some (''def run():'' @ newline @ ''    init_app()'')),
                     py_file ''models.py'' [''init_app''] None]) = []
   \<and> \<not> str_in ''init_app'' ''def run_server(): pass''
   \<and> edges (build_graph [py_file ''main.py'' [''run_server''] (Some ''def run_server(): pass''),
                     py_file ''models.py'' [''init_app''] None])
       = [(''models.py::init_app'', [''main.py::run_server''])]"
  by code_simp

text \<open>
  Claim C2, the end-to-end scenario, evaluated: \<open>main.py\<close> declares \<open>run_server\<close> and
  carries the text that calls \<open>init_app\<close>; \<open>models.py\<close> declares \<open>init_app\<close>. The graph
  has the two nodes and one edge, and that edge runs from \<open>models.py::init_app\<close> to
  \<open>main.py::run_server\<close>; there is no edge from \<open>main.py::run_server\<close>.
\<close>

theorem end_to_end_reversed:
  "d_nodes (build_code_context_graph
       [py_file ''main.py'' [''run_server''] (Some (''def run_server():'' @ newline @ ''    init_app()'')),
        py_file ''models.py'' [''init_app''] None])
     = [(''main.py::run_server'', mk_entity ''run_server'' ''function'' ''python'' ''main.py''),
        (''models.py::init_app'', mk_entity ''init_app'' ''function'' ''python'' ''models.py'')]
   \<and> d_edges (build_code_context_graph
       [py_file ''main.py'' [''run_server''] (Some (''def run_server():'' @ newline @ ''    init_app()'')),
        py_file ''models.py'' [''init_app''] None])
     = [(''models.py::init_app'', [''main.py::run_server''])]
   \<and> d_edge_types (build_code_context_graph
       [py_file ''main.py'' [''run_server''] (Some (''def run_server():'' @ newline @ ''    init_app()'')),
        py_file ''models.py'' [''init_app''] None])
     = [(''models.py::init_app->main.py::run_server'', ''calls'')]
   \<and> edge_count (d_stats (build_code_context_graph
       [py_file ''main.py'' [''run_server''] (Some (''def run_server():'' @ newline @ ''    init_app()'')),
        py_file ''models.py'' [''init_app''] None])) = 1"
  by code_simp

text \<open>
  Whatever the record of \<open>models.py\<close> carries as text, the edge from
  \<open>main.py::run_server\<close> to \<open>models.py::init_app\<close> is recorded exactly when that text
  exists and contains \<open>init_app\<close>, the name of the file's own entity; the text of
  \<open>main.py\<close>, which makes the call, plays no part in it.
\<close>

lemma end_to_end_edge_iff:
  "(''models.py::init_app'' \<in> set (get_callees (build_graph
       [py_file ''main.py'' [''run_server''] (Some (''def run_server():'' @ newline @ ''    init_app()'')),
        py_file ''models.py'' [''init_app''] c]) ''main.py::run_server''))
   = (\<exists>t. c = Some t \<and> str_in ''init_app'' t)"
  by (cases c)
     (simp_all add: build_graph_def pass1_def pass2_def pass1_file_def pass2_file_def
       py_file_def no_record_def has_error_def add_entities_def add_node_def Let_def ccg_init_def
       dict_get_def entity_id_of_def mk_entity_def scan_entity_def scan_files_def scan_others_def
       get_entity_def add_edge_def has_key_def get_callees_def newline_def)

section \<open>Properties of pass 1\<close>

lemma add_all_append: "add_all (xs @ ys) g = add_all ys (add_all xs g)"
  by (simp add: add_all_def)

lemma add_entities_items: "add_entities l fp k ns g = add_all (items l fp k ns) g"
  by (simp add: add_entities_def add_all_def items_def fold_map comp_def)

lemma pass1_file_declared: "pass1_file pf g = add_all (declared pf) g"
  by (simp add: pass1_file_def declared_def Let_def add_entities_items add_all_append)
     (simp add: add_all_def)

lemma pass1_declared: "pass1 pfs g = add_all (concat (map declared pfs)) g"
  unfolding pass1_def
  by (induction pfs arbitrary: g) (simp_all add: pass1_file_declared add_all_append, simp add: add_all_def)





lemma declared_iff:
  "((i, d) \<in> set (declared pf)) =
     (\<not> has_error pf \<and>
      (\<exists>n k. d = [(''name'', n), (''type'', k), (''language'', pf_type pf), (''file_path'', pf_path pf)]
         \<and> ((pf_type pf = ''python'' \<and> i = pf_path pf @ ''::'' @ n
               \<and> (k = ''function'' \<and> n \<in> set (pf_funcs pf) \<or> k = ''class'' \<and> n \<in> set (pf_classes pf)))
           \<or> (pf_type pf = ''jac'' \<and> i = pf_path pf @ ''::'' @ k @ '':'' @ n
               \<and> (k = ''node'' \<and> n \<in> set (pf_nodes pf) \<or> k = ''walker'' \<and> n \<in> set (pf_walkers pf)
                   \<or> k = ''ability'' \<and> n \<in> set (pf_abilities pf)))
           \<or> (pf_type pf = ''javascript'' \<and> i = pf_path pf @ ''::'' @ n
               \<and> (k = ''function'' \<and> n \<in> set (pf_funcs pf) \<or> k = ''class'' \<and> n \<in> set (pf_classes pf)))
           \<or> (pf_type pf = ''rust'' \<and> i = pf_path pf @ ''::'' @ n
               \<and> (k = ''function'' \<and> n \<in> set (pf_funcs pf) \<or> k = ''struct'' \<and> n \<in> set (pf_structs pf))))))"
  by (auto simp: declared_def items_def entity_id_of_def mk_entity_def)







text \<open>
  The file index in terms of the records: the bucket of a non-empty path lists, record
  by record, the ids that pass 1 adds for the records with that path.
\<close>

lemma bucket_add_node:
  "p \<noteq> [] \<Longrightarrow>
   dict_get (file_entities (add_node g i d)) p []
     = dict_get (file_entities g) p [] @ (if dict_get d ''file_path'' [] = p then [i] else [])"
  by (simp add: add_node_def Let_def dict_get_update_same dict_get_update_other)

lemma bucket_add_all:
  "p \<noteq> [] \<Longrightarrow>
   dict_get (file_entities (add_all its g)) p []
     = dict_get (file_entities g) p []
       @ map fst (filter (\<lambda>(i, d). dict_get d ''file_path'' [] = p) its)"
  unfolding add_all_def
proof (induction its arbitrary: g)
  case Nil show ?case by simp
next
  case (Cons x xs)
  obtain i d where x: "x = (i, d)" by (cases x)
  from Cons show ?case by (simp add: x bucket_add_node)
qed

lemma declared_file_path:
  "(i, d) \<in> set (declared pf) \<Longrightarrow> dict_get d ''file_path'' [] = pf_path pf"
  by (auto simp: declared_iff dict_get_def)

lemma filter_declared:
  "filter (\<lambda>(i, d). dict_get d ''file_path'' [] = p) (declared pf)
     = (if pf_path pf = p then declared pf else [])"
  by (auto simp: filter_empty_conv filter_id_conv dest: declared_file_path)

lemma file_index_of_records:
  "p \<noteq> [] \<Longrightarrow>
   dict_get (file_entities (build_graph pfs)) p []
     = concat (map (\<lambda>pf. map fst (declared pf)) (filter (\<lambda>pf. pf_path pf = p) pfs))"
proof -
  assume p: "p \<noteq> []"
  have "map fst (filter (\<lambda>(i, d). dict_get d ''file_path'' [] = p) (concat (map declared pfs)))
      = concat (map (\<lambda>pf. map fst (declared pf)) (filter (\<lambda>pf. pf_path pf = p) pfs))"
    by (induction pfs) (simp_all add: filter_declared)
  with bucket_add_all [OF p, of "concat (map declared pfs)" ccg_init] show ?thesis
    by (simp add: build_graph_file_entities pass1_declared ccg_init_def dict_get_def)
qed


section \<open>Entity ids\<close>

lemma last_sep:
  "c \<notin> set n1 \<Longrightarrow> c \<notin> set n2 \<Longrightarrow> xs @ c # n1 = ys @ c # n2 \<Longrightarrow> xs = ys \<and> n1 = n2"
proof (induction xs arbitrary: ys)
  case Nil
  then show ?case by (cases ys) auto
next
  case (Cons x xs)
  then show ?case by (cases ys) auto
qed

lemma plain_id_inj:
  assumes "CHR '':'' \<notin> set n1" "CHR '':'' \<notin> set n2"
    and "fp1 @ ''::'' @ n1 = fp2 @ ''::'' @ n2"
  shows "fp1 = fp2 \<and> n1 = n2"
proof -
  from assms(3) have "(fp1 @ '':'') @ CHR '':'' # n1 = (fp2 @ '':'') @ CHR '':'' # n2" by simp
  from last_sep [OF assms(1,2) this] show ?thesis by simp
qed

lemma jac_id_inj:
  assumes "CHR '':'' \<notin> set n1" "CHR '':'' \<notin> set n2" "CHR '':'' \<notin> set k1" "CHR '':'' \<notin> set k2"
    and "fp1 @ ''::'' @ k1 @ '':'' @ n1 = fp2 @ ''::'' @ k2 @ '':'' @ n2"
  shows "fp1 = fp2 \<and> k1 = k2 \<and> n1 = n2"
proof -
  from assms(5) have "(fp1 @ ''::'' @ k1) @ CHR '':'' # n1 = (fp2 @ ''::'' @ k2) @ CHR '':'' # n2"
    by simp
  from last_sep [OF assms(1,2) this] have a: "fp1 @ ''::'' @ k1 = fp2 @ ''::'' @ k2" and n: "n1 = n2"
    by simp_all
  from plain_id_inj [OF assms(3,4) a] n show ?thesis by simp
qed

text \<open>
  Claim C4, as the code has it. The entity id is a function of language, file path, kind
  and name. For names and kinds without a colon, two ids of the same language are equal
  exactly when file path and name are equal and, for jac, the kind as well: the ids of
  python, javascript and rust do not contain the kind. A jac node and a jac walker of
  the same name in the same file always have different ids.
\<close>

theorem entity_id_injective:
  "(CHR '':'' \<notin> set n1 \<union> set n2 \<union> set k1 \<union> set k2 \<longrightarrow>
      (entity_id_of l fp1 k1 n1 = entity_id_of l fp2 k2 n2)
        = (fp1 = fp2 \<and> n1 = n2 \<and> (l = ''jac'' \<longrightarrow> k1 = k2)))
   \<and> entity_id_of ''jac'' fp ''node'' n \<noteq> entity_id_of ''jac'' fp ''walker'' n"
proof -
  have "(entity_id_of l fp1 k1 n1 = entity_id_of l fp2 k2 n2)
        = (fp1 = fp2 \<and> n1 = n2 \<and> (l = ''jac'' \<longrightarrow> k1 = k2))"
    if "CHR '':'' \<notin> set n1 \<union> set n2 \<union> set k1 \<union> set k2"
  proof (cases "l = ''jac''")
    case True
    with that show ?thesis
      using jac_id_inj [of n1 n2 k1 k2 fp1 fp2] by (auto simp: entity_id_of_def)
  next
    case False
    with that show ?thesis
      using plain_id_inj [of n1 n2 fp1 fp2] by (auto simp: entity_id_of_def)
  qed
  moreover have "entity_id_of ''jac'' fp ''node'' n \<noteq> entity_id_of ''jac'' fp ''walker'' n"
    by (simp add: entity_id_of_def)
  ultimately show ?thesis by blast
qed

theorem entity_id_injective_witness:
  "CHR '':'' \<notin> set ''Person'' \<union> set ''Person'' \<union> set ''node'' \<union> set ''walker''
   \<and> entity_id_of ''jac'' ''a.jac'' ''node'' ''Person'' \<noteq> entity_id_of ''jac'' ''a.jac'' ''walker'' ''Person''
   \<and> entity_id_of ''jac'' ''a.jac'' ''node'' ''Person'' = ''a.jac::node:Person''"
  using entity_id_injective [of "''Person''" "''Person''" "''node''" "''walker''" "''jac''" "''a.jac''" "''a.jac''"]
  by (simp add: entity_id_of_def)

text \<open>
  A python function and a python class named \<open>foo\<close> in \<open>a.py\<close> are distinct triples
  with the same id; the graph keeps one node, the class.
\<close>

theorem entity_id_injective_counterexample:
  "(''a.py'', ''function'', ''foo'') \<noteq> (''a.py'', ''class'', ''foo'')
   \<and> entity_id_of ''python'' ''a.py'' ''function'' ''foo'' = entity_id_of ''python'' ''a.py'' ''class'' ''foo''
   \<and> d_nodes (build_code_context_graph
        [no_record\<lparr>pf_path := ''a.py'', pf_type := ''python'', pf_funcs := [''foo''], pf_classes := [''foo'']\<rparr>])
      = [(''a.py::foo'', mk_entity ''foo'' ''class'' ''python'' ''a.py'')]"
  by code_simp

section \<open>Properties of the graph query\<close>

lemma fold_query_block:
  "query_type \<in> {''info'', ''callees'', ''callers''} \<Longrightarrow>
   fold (query_block nd ed query_type) ms acc =
     acc @ map (\<lambda>(eid, data).
            if query_type = ''info'' then Info data
            else if query_type = ''callees'' then
              Calls data (map (map_of nd) (filter (has_key nd) (dict_get ed eid [])))
            else
              Called_By data (map (\<lambda>(from_id, to_ids). map_of nd from_id)
                                (filter (\<lambda>(from_id, to_ids). eid \<in> set to_ids) ed))) ms"
proof (induction ms arbitrary: acc)
  case Nil show ?case by simp
next
  case (Cons m ms)
  obtain eid data where m: "m = (eid, data)" by (cases m)
  from Cons.prems show ?case
    by (simp add: Cons.IH [OF Cons.prems] m) (auto simp: query_block_def)
qed

text \<open>
  Claim C9. For a query kind among \<open>info\<close>, \<open>callees\<close> and \<open>callers\<close>, \<open>query_ccg\<close>
  returns the error shape exactly when no entity of the snapshot has the queried name,
  and the message is then \<open>Entity "\<close>, the queried name, \<open>" not found\<close>, so that
  different names give different messages. Otherwise it returns the results list with
  one block per matching entity, in the order of the nodes: the entity's record for
  \<open>info\<close>; the record and the looked-up records of the ids in its adjacency list that
  are nodes for \<open>callees\<close>; the record and the looked-up records of every id whose
  adjacency list contains the entity's id for \<open>callers\<close>.
\<close>

theorem query_ccg_result:
  "query_type \<in> {''info'', ''callees'', ''callers''} \<longrightarrow>
     ((\<exists>msg. query_ccg s query_type name = Inl msg)
        = (\<forall>(eid, data) \<in> set (d_nodes s). map_of data ''name'' \<noteq> Some name))
     \<and> ((\<forall>(eid, data) \<in> set (d_nodes s). map_of data ''name'' \<noteq> Some name)
          \<longrightarrow> query_ccg s query_type name
                = Inl (''Entity '' @ [CHR 0x22] @ name @ [CHR 0x22] @ '' not found''))
     \<and> (''Entity '' @ [CHR 0x22] @ name @ [CHR 0x22] @ '' not found''
            = ''Entity '' @ [CHR 0x22] @ name' @ [CHR 0x22] @ '' not found''
          \<longrightarrow> name = name')
     \<and> ((\<exists>(eid, data) \<in> set (d_nodes s). map_of data ''name'' = Some name)
          \<longrightarrow> query_ccg s query_type name =
               Inr (map (\<lambda>(eid, data).
                      if query_type = ''info'' then Info data
                      else if query_type = ''callees'' then
                        Calls data (map (map_of (d_nodes s))
                                      (filter (has_key (d_nodes s)) (dict_get (d_edges s) eid [])))
                      else
                        Called_By data (map (\<lambda>(from_id, to_ids). map_of (d_nodes s) from_id)
                                          (filter (\<lambda>(from_id, to_ids). eid \<in> set to_ids) (d_edges s))))
                    (filter (\<lambda>(eid, data). map_of data ''name'' = Some name) (d_nodes s))))"
  (is "?q \<longrightarrow> ?c")
proof
  assume q: ?q
  have e: "(matching_entities (d_nodes s) name = [])
            = (\<forall>(eid, data) \<in> set (d_nodes s). map_of data ''name'' \<noteq> Some name)"
    by (auto simp: matching_entities_def filter_empty_conv)
  show ?c
  proof (cases "matching_entities (d_nodes s) name = []")
    case True
    then have "query_ccg s query_type name
        = Inl (''Entity '' @ [CHR 0x22] @ name @ [CHR 0x22] @ '' not found'')"
      by (simp add: query_ccg_def Let_def not_found_def dquote_def)
    with True e show ?thesis by auto
  next
    case False
    then have "query_ccg s query_type name
        = Inr (fold (query_block (d_nodes s) (d_edges s) query_type)
                 (matching_entities (d_nodes s) name) [])"
      by (simp add: query_ccg_def Let_def)
    with False e show ?thesis
      by (simp add: fold_query_block [OF q]) (auto simp: matching_entities_def)
  qed
qed

theorem query_ccg_result_witness:
  "query_ccg (build_code_context_graph two_files) ''callers'' ''start''
     = Inr [Called_By [(''name'', ''start''), (''type'', ''function''),
                       (''language'', ''python''), (''file_path'', ''a.py'')]
              [Some [(''name'', ''load''), (''type'', ''function''),
                     (''language'', ''python''), (''file_path'', ''b.py'')]]]
   \<and> query_ccg (build_code_context_graph two_files) ''callers'' ''stop''
     = Inl (''Entity '' @ [CHR 0x22] @ ''stop'' @ [CHR 0x22] @ '' not found'')"
proof -
  have n: "d_nodes (build_code_context_graph two_files)
      = [(''a.py::start'', [(''name'', ''start''), (''type'', ''function''),
                            (''language'', ''python''), (''file_path'', ''a.py'')]),
         (''b.py::load'', [(''name'', ''load''), (''type'', ''function''),
                           (''language'', ''python''), (''file_path'', ''b.py'')])]"
    by code_simp
  have e: "d_edges (build_code_context_graph two_files) = [(''b.py::load'', [''a.py::start''])]"
    by code_simp
  show ?thesis
    using query_ccg_result [of "''callers''" "build_code_context_graph two_files" "''start''"]
          query_ccg_result [of "''callers''" "build_code_context_graph two_files" "''stop''"]
    by (simp add: n e)
qed

section \<open>Properties of the diagram projector\<close>

lemma emit_nodes_ok:
  "\<forall>i \<in> set ids. has_key nd i \<Longrightarrow>
   emit_nodes nd ids m = Inr (m @ concat (map (\<lambda>i. node_decl i (dict_get nd i [])) ids))"
proof (induction ids arbitrary: m)
  case Nil show ?case by simp
next
  case (Cons i ids)
  then obtain d where d: "map_of nd i = Some d" by (auto simp: has_key_def)
  from Cons.prems have "\<forall>i \<in> set ids. has_key nd i" by simp
  from Cons.IH [OF this] d show ?case by (simp add: dict_get_def)
qed

lemma emit_edge_prefix:
  "emit_edge tops f t (m @ x, added) = (m @ fst (emit_edge tops f t (x, added)), snd (emit_edge tops f t (x, added)))"
  by (simp add: emit_edge_def)

lemma fold_emit_edge_prefix:
  "fold (emit_edge tops f) ts (m @ x, added)
     = (m @ fst (fold (emit_edge tops f) ts (x, added)), snd (fold (emit_edge tops f) ts (x, added)))"
proof (induction ts arbitrary: x added)
  case Nil show ?case by simp
next
  case (Cons t ts)
  obtain x' a' where s: "emit_edge tops f t (x, added) = (x', a')" by (cases "emit_edge tops f t (x, added)")
  show ?case by (simp add: emit_edge_prefix [of tops f t m x added] s Cons)
qed

lemma fold_fold_emit_edge_prefix:
  "fold (\<lambda>f st. fold (emit_edge tops f) (dict_get ed f []) st) fs (m @ x, added)
     = (m @ fst (fold (\<lambda>f st. fold (emit_edge tops f) (dict_get ed f []) st) fs (x, added)),
        snd (fold (\<lambda>f st. fold (emit_edge tops f) (dict_get ed f []) st) fs (x, added)))"
proof (induction fs arbitrary: x added)
  case Nil show ?case by simp
next
  case (Cons f fs)
  obtain x' a' where s: "fold (emit_edge tops f) (dict_get ed f []) (x, added) = (x', a')"
    by (cases "fold (emit_edge tops f) (dict_get ed f []) (x, added)")
  show ?case by (simp add: fold_emit_edge_prefix [of tops f _ m x added] s Cons)
qed

lemma emit_edges_prefix: "emit_edges ed ids m = m @ emit_edges ed ids []"
  using fold_fold_emit_edge_prefix [of ids ed ids m "[]" "[]"]
  by (simp add: emit_edges_def)

lemma py_take_length: "0 \<le> m \<Longrightarrow> length (py_take m xs) \<le> nat m"
  by (simp add: py_take_def)

lemma py_take_subset: "set (py_take m xs) \<subseteq> set xs"
  by (auto simp: py_take_def dest: in_set_takeD)

lemma top_nodes_keys: "fst ` set (top_nodes s m) \<subseteq> fst ` set (d_nodes s)"
proof -
  have "set (top_nodes s m) \<subseteq> set (map (\<lambda>(node_id, d). (node_id, length (dict_get (d_edges s) node_id []))) (d_nodes s))"
    using py_take_subset [of m "sort_key (\<lambda>x. - int (snd x))
        (map (\<lambda>(node_id, d). (node_id, length (dict_get (d_edges s) node_id []))) (d_nodes s))"]
    by (simp add: top_nodes_def Let_def del: set_map)
  then show ?thesis by force
qed

lemma iterates_set_length: "iterates_set it \<Longrightarrow> length (it xs) \<le> length xs"
  by (metis iterates_set_def distinct_card card_length)

lemma diagram_text:
  assumes "iterates_set set_iter"
  shows "generate_mermaid_diagram set_iter s max_nodes =
     Inr (''graph TD'' @ newline
          @ concat (map (\<lambda>i. node_decl i (dict_get (d_nodes s) i []))
                        (set_iter (map fst (top_nodes s max_nodes))))
          @ emit_edges (d_edges s) (set_iter (map fst (top_nodes s max_nodes))) [])"
proof -
  let ?ids = "set_iter (map fst (top_nodes s max_nodes))"
  have "set ?ids = fst ` set (top_nodes s max_nodes)"
    using assms by (simp add: iterates_set_def)
  with top_nodes_keys [of s max_nodes] have "\<forall>i \<in> set ?ids. has_key (d_nodes s) i"
    by (auto simp: has_key_keys)
  from emit_nodes_ok [OF this, of "''graph TD'' @ newline"]
  have "generate_mermaid_diagram set_iter s max_nodes =
      Inr (emit_edges (d_edges s) ?ids
             ((''graph TD'' @ newline) @ concat (map (\<lambda>i. node_decl i (dict_get (d_nodes s) i [])) ?ids)))"
    by (simp add: generate_mermaid_diagram_def Let_def)
  also have "\<dots> = Inr (((''graph TD'' @ newline) @ concat (map (\<lambda>i. node_decl i (dict_get (d_nodes s) i [])) ?ids))
                      @ emit_edges (d_edges s) ?ids [])"
    by (subst emit_edges_prefix) (rule refl)
  finally show ?thesis by simp
qed

lemma iterates_set_remdups: "iterates_set remdups"
  by (simp add: iterates_set_def)


text \<open>
  Claim C8. Whatever order the set of selected ids is iterated in, for every snapshot
  and every \<open>max_nodes \<ge> 0\<close> the diagram is returned, not raised: it is the header
  \<open>graph TD\<close>, then one node declaration (with its style line) for each selected id,
  then the edge lines, and at most \<open>max_nodes\<close> ids are selected. With
  \<open>max_nodes = 0\<close>, or when no id is selected, the diagram is the header alone.
\<close>

theorem diagram_bounded:
  "iterates_set set_iter \<and> 0 \<le> max_nodes \<longrightarrow>
     length (set_iter (map fst (top_nodes s max_nodes))) \<le> nat max_nodes
     \<and> generate_mermaid_diagram set_iter s max_nodes =
         Inr (''graph TD'' @ newline
              @ concat (map (\<lambda>node_id. node_decl node_id (dict_get (d_nodes s) node_id []))
                            (set_iter (map fst (top_nodes s max_nodes))))
              @ emit_edges (d_edges s) (set_iter (map fst (top_nodes s max_nodes))) [])
     \<and> (max_nodes = 0 \<or> set (set_iter (map fst (top_nodes s max_nodes))) = {}
          \<longrightarrow> generate_mermaid_diagram set_iter s max_nodes = Inr (''graph TD'' @ newline))"
proof
  assume a: "iterates_set set_iter \<and> 0 \<le> max_nodes"
  let ?ids = "set_iter (map fst (top_nodes s max_nodes))"
  have l: "length ?ids \<le> nat max_nodes"
  proof -
    have "length ?ids \<le> length (top_nodes s max_nodes)"
      using iterates_set_length [of set_iter "map fst (top_nodes s max_nodes)"] a by simp
    also have "\<dots> \<le> nat max_nodes"
      using a by (simp add: top_nodes_def Let_def py_take_length)
    finally show ?thesis .
  qed
  have t: "generate_mermaid_diagram set_iter s max_nodes =
         Inr (''graph TD'' @ newline
              @ concat (map (\<lambda>node_id. node_decl node_id (dict_get (d_nodes s) node_id [])) ?ids)
              @ emit_edges (d_edges s) ?ids [])"
    using a by (simp add: diagram_text)
  have e: "generate_mermaid_diagram set_iter s max_nodes = Inr (''graph TD'' @ newline)"
    if "max_nodes = 0 \<or> set ?ids = {}"
  proof -
    from that l have "?ids = []" by auto
    then show ?thesis unfolding t by (simp add: emit_edges_def)
  qed
  from l t e show "length ?ids \<le> nat max_nodes
     \<and> generate_mermaid_diagram set_iter s max_nodes =
         Inr (''graph TD'' @ newline
              @ concat (map (\<lambda>node_id. node_decl node_id (dict_get (d_nodes s) node_id [])) ?ids)
              @ emit_edges (d_edges s) ?ids [])
     \<and> (max_nodes = 0 \<or> set ?ids = {}
          \<longrightarrow> generate_mermaid_diagram set_iter s max_nodes = Inr (''graph TD'' @ newline))"
    by blast
qed

theorem diagram_bounded_witness:
  "length (remdups (map fst (top_nodes (build_code_context_graph two_files) 1))) \<le> nat 1
   \<and> generate_mermaid_diagram remdups (build_code_context_graph two_files) 1
       = Inr (''graph TD'' @ newline
              @ node_decl ''b.py::load'' (mk_entity ''load'' ''function'' ''python'' ''b.py''))
   \<and> generate_mermaid_diagram remdups (build_code_context_graph two_files) 0
       = Inr (''graph TD'' @ newline)"
proof -
  have a: "generate_mermaid_diagram remdups (build_code_context_graph two_files) 1
       = Inr (''graph TD'' @ newline
              @ node_decl ''b.py::load'' (mk_entity ''load'' ''function'' ''python'' ''b.py''))"
    by code_simp
  have h1: "iterates_set remdups \<and> (0::int) \<le> 1" and h0: "iterates_set remdups \<and> (0::int) \<le> 0"
    by (simp_all add: iterates_set_remdups)
  from diagram_bounded [of remdups 1 "build_code_context_graph two_files"] h1
  have l: "length (remdups (map fst (top_nodes (build_code_context_graph two_files) 1))) \<le> nat 1"
    by blast
  from diagram_bounded [of remdups 0 "build_code_context_graph two_files"] h0
  have z: "generate_mermaid_diagram remdups (build_code_context_graph two_files) 0
       = Inr (''graph TD'' @ newline)"
    by blast
  from l a z show ?thesis by blast
qed





section \<open>Properties of the source extractor\<close>

lemma collect_imports_concat:
  "collect_imports walk acc =
     acc @ concat (map (\<lambda>n. case n of
                                Import names \<Rightarrow> names
                              | ImportFrom m \<Rightarrow>
                                  (case m of None \<Rightarrow> []
                                   | Some module_name \<Rightarrow> if module_name \<noteq> [] then [module_name] else [])
                              | _ \<Rightarrow> []) walk)"
proof (induction walk arbitrary: acc)
  case Nil show ?case by simp
next
  case (Cons n walk)
  show ?case by (cases n) (simp_all add: Cons split: option.splits)
qed

text \<open>
  Claim C5, as the code has it. A javascript record has no duplicates in \<open>funcs\<close>,
  \<open>classes\<close> and \<open>imports\<close>; a rust record none in \<open>funcs\<close>, \<open>structs\<close>, \<open>enums\<close> and
  \<open>traits\<close>; a jac record none in \<open>walkers\<close>, \<open>nodes\<close>, \<open>enums\<close>, \<open>abilities\<close>,
  \<open>globals\<close> and \<open>edges\<close>. The \<open>imports\<close> of a rust record and of a jac record are the
  match lists as found. The \<open>funcs\<close> and \<open>classes\<close> of a python record list the name of
  every definition node of the walk, and its \<open>imports\<close> list every name of every
  \<open>import\<close> and the module of every \<open>from\<close>-import that has one, in the order of the
  walk. So all of these keep duplicates.
\<close>

theorem extractor_duplicates:
  "iterates_set set_iter \<longrightarrow>
     distinct (pf_funcs (parse_javascript set_iter js_funcs js_arrows js_classes js_imports js_requires code))
     \<and> distinct (pf_classes (parse_javascript set_iter js_funcs js_arrows js_classes js_imports js_requires code))
     \<and> distinct (pf_imports (parse_javascript set_iter js_funcs js_arrows js_classes js_imports js_requires code))
     \<and> distinct (pf_funcs (parse_rust set_iter rs_funcs rs_structs rs_enums rs_traits rs_imports code))
     \<and> distinct (pf_structs (parse_rust set_iter rs_funcs rs_structs rs_enums rs_traits rs_imports code))
     \<and> distinct (pf_enums (parse_rust set_iter rs_funcs rs_structs rs_enums rs_traits rs_imports code))
     \<and> distinct (pf_traits (parse_rust set_iter rs_funcs rs_structs rs_enums rs_traits rs_imports code))
     \<and> pf_imports (parse_rust set_iter rs_funcs rs_structs rs_enums rs_traits rs_imports code) = rs_imports
     \<and> distinct (pf_walkers (parse_jac set_iter walkers ns enums abilities globs imp_py imp_jac imp_brace es code))
     \<and> distinct (pf_nodes (parse_jac set_iter walkers ns enums abilities globs imp_py imp_jac imp_brace es code))
     \<and> distinct (pf_enums (parse_jac set_iter walkers ns enums abilities globs imp_py imp_jac imp_brace es code))
     \<and> distinct (pf_abilities (parse_jac set_iter walkers ns enums abilities globs imp_py imp_jac imp_brace es code))
     \<and> distinct (pf_globals (parse_jac set_iter walkers ns enums abilities globs imp_py imp_jac imp_brace es code))
     \<and> distinct (pf_edges (parse_jac set_iter walkers ns enums abilities globs imp_py imp_jac imp_brace es code))
     \<and> pf_imports (parse_jac set_iter walkers ns enums abilities globs imp_py imp_jac imp_brace es code)
         = imp_py @ imp_jac @ imp_brace
     \<and> pf_funcs (parse_python (Inr walk) code) = [name. FunctionDef name \<leftarrow> walk]
     \<and> pf_classes (parse_python (Inr walk) code) = [name. ClassDef name \<leftarrow> walk]
     \<and> pf_imports (parse_python (Inr walk) code)
         = concat (map (\<lambda>n. case n of
                            Import names \<Rightarrow> names
                          | ImportFrom m \<Rightarrow>
                              (case m of None \<Rightarrow> []
                               | Some module_name \<Rightarrow> if module_name \<noteq> [] then [module_name] else [])
                          | _ \<Rightarrow> []) walk)"
  by (simp add: iterates_set_def parse_javascript_def parse_rust_def parse_jac_def parse_python_def
        no_record_def collect_imports_concat)

theorem extractor_duplicates_witness:
  "pf_funcs (parse_rust remdups [''new'', ''new'', ''area''] [''Point''] [] [] [''std::io'', ''std::io'']
               ''use std::io; use std::io; struct Point; fn new() fn new() fn area()'')
     = [''new'', ''area'']
   \<and> distinct (pf_structs (parse_rust remdups [''new'', ''new'', ''area''] [''Point''] [] []
               [''std::io'', ''std::io'']
               ''use std::io; use std::io; struct Point; fn new() fn new() fn area()''))
   \<and> pf_imports (parse_python
        (Inr [Other_Node, Import [''os'', ''sys''], ImportFrom (Some ''os''), ImportFrom None,
              Other_Node, Other_Node, Other_Node, Other_Node])
        (''import os, sys'' @ newline @ ''from os import path'' @ newline @ ''from . import x'' @ newline))
     = [''os'', ''sys'', ''os'']"
  using extractor_duplicates [of remdups "[]" "[]" "[]" "[]" "[]"
          "''use std::io; use std::io; struct Point; fn new() fn new() fn area()''"
          "[''new'', ''new'', ''area'']" "[''Point'']" "[]" "[]" "[''std::io'', ''std::io'']"]
        extractor_duplicates [of remdups "[]" "[]" "[]" "[]" "[]"
          "''import os, sys'' @ newline @ ''from os import path'' @ newline @ ''from . import x'' @ newline"
          "[]" "[]" "[]" "[]" "[]" "[]" "[]" "[]" "[]" "[]" "[]" "[]" "[]" "[]"
          "[Other_Node, Import [''os'', ''sys''], ImportFrom (Some ''os''), ImportFrom None,
              Other_Node, Other_Node, Other_Node, Other_Node]"]
        iterates_set_remdups
  by (simp add: parse_rust_def no_record_def)

text \<open>
  A rust file with the same \<open>use\<close> statement twice has a duplicate in \<open>imports\<close>. A
  python file with two classes that both define \<open>run\<close> has a duplicate in \<open>funcs\<close>:
  \<open>ast.walk\<close> yields the module, the two class definitions, the two function
  definitions and then their arguments and bodies.
\<close>

theorem extractor_duplicates_counterexample:
  "\<not> distinct (pf_imports (parse_rust remdups [] [] [] [] [''std::io'', ''std::io'']
                  ''use std::io; use std::io;''))
   \<and> pf_error (parse_python
          (Inr [Other_Node, ClassDef ''A'', ClassDef ''B'', FunctionDef ''run'', FunctionDef ''run'',
                Other_Node, Other_Node, Other_Node, Other_Node, Other_Node, Other_Node])
          (''class A:'' @ newline @ ''    def run(self):'' @ newline @ ''        pass'' @ newline
           @ ''class B:'' @ newline @ ''    def run(self):'' @ newline @ ''        pass'' @ newline))
       = None
   \<and> pf_funcs (parse_python
          (Inr [Other_Node, ClassDef ''A'', ClassDef ''B'', FunctionDef ''run'', FunctionDef ''run'',
                Other_Node, Other_Node, Other_Node, Other_Node, Other_Node, Other_Node])
          (''class A:'' @ newline @ ''    def run(self):'' @ newline @ ''        pass'' @ newline
           @ ''class B:'' @ newline @ ''    def run(self):'' @ newline @ ''        pass'' @ newline))
       = [''run'', ''run'']"
  by (simp add: parse_rust_def parse_python_def no_record_def)

end
